theory Spec2Isabelle
  imports
    Complex_Main
    "HOL-Library.Char_ord"
    "HOL-Library.List_Lexorder"
    "HOL-Library.Product_Lexorder"
begin

section \<open>Truck loading dashboard (app.py): data model\<close>

text \<open>
  The program is a pandas script.  A data frame is modelled column by column, as pandas
  stores it: a list of named columns, each a list of cells.  A cell of a text column read
  by \<^verbatim>\<open>pd.read_csv\<close> is either a string or the missing value NaN (an empty cell of the
  sheet); \<open>None\<close> stands for NaN.  A Python string is the list of its code points; a
  \<open>char\<close> holds a code point below 256, so text is modelled in the Latin-1 range.
\<close>

type_synonym cell = "string option"

type_synonym frame = "(string \<times> cell list) list"

text \<open>
  A row of the frame \<^verbatim>\<open>action\<close> that \<^verbatim>\<open>load_action\<close> returns, restricted to the five columns
  the rest of the script reads.  \<open>Timestamp\<close> is the parsed instant in nanoseconds since
  the epoch (the value of a pandas timestamp); rows whose timestamp is NaT are dropped
  before the frame is returned, so the field is not optional.  \<open>Date\<close> is the calendar
  day as a day number.
\<close>

record event =
  Timestamp :: int
  Date :: int
  Product :: cell
  Plate :: cell
  Status :: cell

datatype error =
  Missing_columns "string list"
    \<comment> \<open>\<^verbatim>\<open>raise ValueError(f"Missing columns: {missing}")\<close>\<close>
| Cannot_insert string
    \<comment> \<open>pandas: \<^verbatim>\<open>ValueError: cannot insert Plate, already exists\<close>, from \<^verbatim>\<open>reset_index\<close>\<close>

section \<open>Status normalisation (lines 47-54)\<close>

text \<open>\<^verbatim>\<open>str.isspace\<close> on the code points below 256: tab, line feed, vertical tab, form
  feed, carriage return, the four separators 0x1C-0x1F, the space, the next-line
  character U+0085 and the no-break space U+00A0.\<close>

definition isspace :: "char \<Rightarrow> bool" where
  "isspace c = (c \<in> set [CHR 0x09, CHR 0x0A, CHR 0x0B, CHR 0x0C, CHR 0x0D,
                          CHR 0x1C, CHR 0x1D, CHR 0x1E, CHR 0x1F, CHR 0x20,
                          CHR 0x85, CHR 0xA0])"

text \<open>\<^verbatim>\<open>.str.strip()\<close>: leading and trailing whitespace removed.\<close>

definition strip :: "string \<Rightarrow> string" where
  "strip s = rev (dropWhile isspace (rev (dropWhile isspace s)))"

text \<open>
  The upper-case letters below code point 256 and their lower-case letters: A-Z, and
  U+00C0-U+00DE without the multiplication sign U+00D7.
\<close>

definition upper_letters :: string where
  "upper_letters = ''ABCDEFGHIJKLMNOPQRSTUVWXYZ'' @
     [CHR 0xC0, CHR 0xC1, CHR 0xC2, CHR 0xC3, CHR 0xC4, CHR 0xC5, CHR 0xC6, CHR 0xC7,
      CHR 0xC8, CHR 0xC9, CHR 0xCA, CHR 0xCB, CHR 0xCC, CHR 0xCD, CHR 0xCE, CHR 0xCF,
      CHR 0xD0, CHR 0xD1, CHR 0xD2, CHR 0xD3, CHR 0xD4, CHR 0xD5, CHR 0xD6,
      CHR 0xD8, CHR 0xD9, CHR 0xDA, CHR 0xDB, CHR 0xDC, CHR 0xDD, CHR 0xDE]"

definition lower_letters :: string where
  "lower_letters = ''abcdefghijklmnopqrstuvwxyz'' @
     [CHR 0xE0, CHR 0xE1, CHR 0xE2, CHR 0xE3, CHR 0xE4, CHR 0xE5, CHR 0xE6, CHR 0xE7,
      CHR 0xE8, CHR 0xE9, CHR 0xEA, CHR 0xEB, CHR 0xEC, CHR 0xED, CHR 0xEE, CHR 0xEF,
      CHR 0xF0, CHR 0xF1, CHR 0xF2, CHR 0xF3, CHR 0xF4, CHR 0xF5, CHR 0xF6,
      CHR 0xF8, CHR 0xF9, CHR 0xFA, CHR 0xFB, CHR 0xFC, CHR 0xFD, CHR 0xFE]"

definition lower_char :: "char \<Rightarrow> char" where
  "lower_char c =
     (case map_of (zip upper_letters lower_letters) c of Some d \<Rightarrow> d | None \<Rightarrow> c)"

text \<open>\<^verbatim>\<open>.str.lower()\<close>.\<close>

definition lower :: "string \<Rightarrow> string" where
  "lower s = map lower_char s"

text \<open>\<^verbatim>\<open>.astype(str)\<close>: a string stays, NaN becomes the text \<^verbatim>\<open>nan\<close>.\<close>

definition astype_str :: "cell \<Rightarrow> string" where
  "astype_str c = (case c of None \<Rightarrow> ''nan'' | Some s \<Rightarrow> s)"

definition status_map :: "(string \<times> string) list" where
  "status_map =
     [(''waiting'', ''Waiting''), (''wait'', ''Waiting''),
      (''start'', ''Start Loading''), (''start loading'', ''Start Loading''),
      (''loading start'', ''Start Loading''),
      (''complete'', ''Complete Loading''), (''completed'', ''Complete Loading''),
      (''complete loading'', ''Complete Loading'')]"

text \<open>
  \<^verbatim>\<open>df["Status"].astype(str).str.strip().str.lower().map(status_map).fillna(df["Status"])\<close>
  on one cell: \<^verbatim>\<open>map\<close> gives NaN for a key that is not in the dictionary, and \<^verbatim>\<open>fillna\<close>
  puts the original cell back there (NaN when the original cell is NaN).
\<close>

definition normalize_status :: "cell \<Rightarrow> cell" where
  "normalize_status c =
     (case map_of status_map (lower (strip (astype_str c))) of
        Some v \<Rightarrow> Some v
      | None \<Rightarrow> c)"

text \<open>The synonym table in the words of the specification, for comparison.\<close>

definition spec_synonym :: "string \<Rightarrow> string option" where
  "spec_synonym t =
     (if t = ''waiting'' \<or> t = ''wait'' then Some ''Waiting''
      else if t = ''start'' \<or> t = ''start loading'' \<or> t = ''loading start''
        then Some ''Start Loading''
      else if t = ''complete'' \<or> t = ''completed'' \<or> t = ''complete loading''
        then Some ''Complete Loading''
      else None)"

text \<open>
  Whitespace and lower case by code point, independently of the tables above: the
  whitespace characters are U+0009-U+000D, U+001C-U+0020, U+0085 and U+00A0; a letter
  A-Z or U+00C0-U+00DE (but not U+00D7) becomes the character 32 code points higher.
\<close>

definition spec_whitespace :: "char \<Rightarrow> bool" where
  "spec_whitespace c =
     (let n = (of_char c :: nat)
      in (9 \<le> n \<and> n \<le> 13) \<or> (28 \<le> n \<and> n \<le> 32) \<or> n = 133 \<or> n = 160)"

definition spec_lower_char :: "char \<Rightarrow> char" where
  "spec_lower_char c =
     (let n = (of_char c :: nat)
      in if (65 \<le> n \<and> n \<le> 90) \<or> (192 \<le> n \<and> n \<le> 222 \<and> n \<noteq> 215)
         then char_of (n + 32) else c)"

text \<open>
  The text \<open>t\<close> is the label \<open>s\<close> trimmed: \<open>s\<close> is \<open>t\<close> between a run \<open>pre\<close> and
  a run \<open>post\<close> of whitespace, and \<open>t\<close> neither starts nor ends with whitespace.
\<close>

definition spec_trimmed :: "string \<Rightarrow> string \<Rightarrow> string \<Rightarrow> string \<Rightarrow> bool" where
  "spec_trimmed s pre t post \<longleftrightarrow>
     s = pre @ t @ post \<and> list_all spec_whitespace pre \<and> list_all spec_whitespace post \<and>
     (case t of [] \<Rightarrow> True | c # _ \<Rightarrow> \<not> spec_whitespace c \<and> \<not> spec_whitespace (last t))"

text \<open>
  The status of a label \<open>s\<close> whose trimmed text is \<open>t\<close>: the table's entry for the
  lower-cased \<open>t\<close>, and the label as it was written when there is none.
\<close>

definition spec_status :: "string \<Rightarrow> string \<Rightarrow> string" where
  "spec_status s t =
     (case spec_synonym (map spec_lower_char t) of Some v \<Rightarrow> v | None \<Rightarrow> s)"

section \<open>Loading the feed (lines 31-55)\<close>

definition rename_map :: "(string \<times> string) list" where
  "rename_map =
     [(''Plate Number'', ''Plate''), (''Product Group'', ''Product''),
      (''Action'', ''Status''), (''Time'', ''Timestamp'')]"

definition columns :: "frame \<Rightarrow> string list" where
  "columns df = map fst df"

text \<open>\<^verbatim>\<open>df.rename(columns={k: v})\<close>.\<close>

definition rename :: "string \<Rightarrow> string \<Rightarrow> frame \<Rightarrow> frame" where
  "rename k v df = map (\<lambda>(c, xs). (if c = k then v else c, xs)) df"

text \<open>The body of the loop: \<^verbatim>\<open>if k in df.columns and v not in df.columns: ...\<close>.\<close>

definition rename_step :: "string \<Rightarrow> string \<Rightarrow> frame \<Rightarrow> frame" where
  "rename_step k v df =
     (if k \<in> set (columns df) \<and> v \<notin> set (columns df) then rename k v df else df)"

text \<open>The loop over \<^verbatim>\<open>rename_map.items()\<close>, in the dictionary's order.\<close>

fun rename_columns :: "(string \<times> string) list \<Rightarrow> frame \<Rightarrow> frame" where
  "rename_columns [] df = df"
| "rename_columns ((k, v) # kvs) df = rename_columns kvs (rename_step k v df)"

definition req :: "string list" where
  "req = [''Timestamp'', ''Product'', ''Plate'', ''Status'']"

text \<open>\<^verbatim>\<open>df[c]\<close> for a column that the check on \<open>req\<close> has found present.\<close>

definition column :: "frame \<Rightarrow> string \<Rightarrow> cell list" where
  "column df c = (case map_of df c of Some xs \<Rightarrow> xs | None \<Rightarrow> [])"

text \<open>
  \<^verbatim>\<open>pd.to_datetime(..., errors="coerce")\<close> on one cell.  The parser of pandas is a
  parameter \<open>parse\<close>: for the feed at hand it gives the instant a text denotes, or
  \<open>None\<close> (NaT) for a text it cannot read.  A missing cell is NaT.
\<close>

definition to_datetime :: "(string \<Rightarrow> int option) \<Rightarrow> cell \<Rightarrow> int option" where
  "to_datetime parse c = (case c of None \<Rightarrow> None | Some s \<Rightarrow> parse s)"

definition ns_per_day :: int where
  "ns_per_day = 86400 * 1000000000"

text \<open>\<^verbatim>\<open>.dt.date\<close>: the calendar day of a naive timestamp.\<close>

definition dt_date :: "int \<Rightarrow> int" where
  "dt_date t = t div ns_per_day"

text \<open>
  One row after the column operations of lines 44-54, and \<^verbatim>\<open>dropna(subset=["Timestamp"])\<close>
  on it: \<open>None\<close> when the row is dropped.
\<close>

definition dropna_Timestamp :: "int option \<times> cell \<times> cell \<times> cell \<Rightarrow> event option" where
  "dropna_Timestamp r =
     (case r of (t, p, v, s) \<Rightarrow>
        (case t of
           None \<Rightarrow> None
         | Some n \<Rightarrow>
             Some \<lparr>Timestamp = n, Date = dt_date n, Product = p, Plate = v, Status = s\<rparr>))"

definition load_action :: "(string \<Rightarrow> int option) \<Rightarrow> frame \<Rightarrow> error + event list" where
  "load_action parse csv =
     (let df = rename_columns rename_map csv;
          missing = filter (\<lambda>c. c \<notin> set (columns df)) req
      in if missing \<noteq> [] then Inl (Missing_columns missing)
         else
           let ts = map (to_datetime parse) (column df ''Timestamp'');
               st = map normalize_status (column df ''Status'')
           in Inr (List.map_filter dropna_Timestamp
                     (zip ts (zip (column df ''Product'') (zip (column df ''Plate'') st)))))"

section \<open>Interval reconstruction (lines 60-73)\<close>

text \<open>Sorting puts NaN after every string (\<^verbatim>\<open>na_position="last"\<close>).\<close>

definition na_last :: "cell \<Rightarrow> nat \<times> string" where
  "na_last c = (case c of None \<Rightarrow> (1, []) | Some s \<Rightarrow> (0, s))"

text \<open>
  \<^verbatim>\<open>DataFrame.groupby(keys)\<close> with its defaults \<^verbatim>\<open>sort=True, dropna=True\<close>: the groups in
  ascending order of their keys, each with its rows in the order of the frame; a row
  with NaN in a key column (\<open>key x = None\<close>) belongs to no group.
\<close>

definition groupby :: "('a \<Rightarrow> 'k::linorder option) \<Rightarrow> 'a list \<Rightarrow> ('k \<times> 'a list) list" where
  "groupby key xs =
     map (\<lambda>k. (k, filter (\<lambda>x. key x = Some k) xs)) (sort (remdups (List.map_filter key xs)))"

type_synonym key3 = "int \<times> string \<times> string"

type_synonym key4 = "int \<times> string \<times> string \<times> string"

definition key4 :: "event \<Rightarrow> key4 option" where
  "key4 e =
     (case (Product e, Plate e, Status e) of
        (Some p, Some v, Some s) \<Rightarrow> Some (Date e, p, v, s)
      | _ \<Rightarrow> None)"

text \<open>\<^verbatim>\<open>action.sort_values(["Date","Product","Plate","Status","Timestamp"])\<close>.\<close>

definition sort_values5 :: "event list \<Rightarrow> event list" where
  "sort_values5 action =
     sort_key (\<lambda>e. (Date e, na_last (Product e), na_last (Plate e), na_last (Status e),
                     Timestamp e)) action"

text \<open>
  \<^verbatim>\<open>.groupby(["Date","Product","Plate","Status"], as_index=False)["Timestamp"].first()\<close>:
  one row per group, with the timestamp of the group's first row (no timestamp of
  \<^verbatim>\<open>action\<close> is NaT, and a group of pandas is never empty).
\<close>

definition first_stage :: "event list \<Rightarrow> (key4 \<times> int) list" where
  "first_stage action =
     List.map_filter
       (\<lambda>(k, g). case g of [] \<Rightarrow> None | e # _ \<Rightarrow> Some (k, Timestamp e))
       (groupby key4 (sort_values5 action))"

definition index3 :: "key4 \<Rightarrow> key3" where
  "index3 k = (case k of (d, p, v, s) \<Rightarrow> (d, p, v))"

definition status4 :: "key4 \<Rightarrow> string" where
  "status4 k = (case k of (d, p, v, s) \<Rightarrow> s)"

text \<open>
  \<^verbatim>\<open>pivot_table(index=["Date","Product","Plate"], columns="Status", values="Timestamp",
  aggfunc="first")\<close>: the column labels are the status values that occur, and the table has
  one row per index key that occurs, in ascending order; the cell of a row under a status
  is the first timestamp of the rows of \<^verbatim>\<open>first_stage\<close> with that key and status, NaT
  (\<open>None\<close>) when there is none.
\<close>

definition pivot_columns :: "(key4 \<times> int) list \<Rightarrow> string list" where
  "pivot_columns fs = sort (remdups (map (status4 \<circ> fst) fs))"

definition pivot_cell :: "(key4 \<times> int) list \<Rightarrow> key3 \<Rightarrow> string \<Rightarrow> int option" where
  "pivot_cell fs i s =
     (case filter (\<lambda>(k, t). index3 k = i \<and> status4 k = s) fs of
        [] \<Rightarrow> None
      | (k, t) # _ \<Rightarrow> Some t)"

definition pivot_table :: "(key4 \<times> int) list \<Rightarrow> (key3 \<times> (string \<Rightarrow> int option)) list" where
  "pivot_table fs =
     map (\<lambda>i. (i, pivot_cell fs i)) (sort (remdups (map (index3 \<circ> fst) fs)))"

text \<open>One row of \<^verbatim>\<open>wide\<close> after line 73: the key and the three known status columns.\<close>

record interval =
  w_Date :: int
  w_Product :: string
  w_Plate :: string
  Waiting :: "int option"
  Start_Loading :: "int option"
  Complete_Loading :: "int option"

text \<open>
  Lines 70-73: a known status that is no column of the pivot table becomes a column of
  NaT, and the six columns are selected.
\<close>

definition select_columns :: "string list \<Rightarrow> key3 \<times> (string \<Rightarrow> int option) \<Rightarrow> interval" where
  "select_columns cols r =
     (case r of ((d, p, v), cells) \<Rightarrow>
        \<lparr>w_Date = d, w_Product = p, w_Plate = v,
         Waiting = (if ''Waiting'' \<in> set cols then cells ''Waiting'' else None),
         Start_Loading =
           (if ''Start Loading'' \<in> set cols then cells ''Start Loading'' else None),
         Complete_Loading =
           (if ''Complete Loading'' \<in> set cols then cells ''Complete Loading'' else None)\<rparr>)"

text \<open>
  Lines 60-73.  \<^verbatim>\<open>reset_index()\<close> inserts the index levels Plate, Product and Date (in
  that order) as columns and raises when a column of that name exists already, that is
  when a status label of the feed is one of these three words.
\<close>

definition reconstruct :: "event list \<Rightarrow> error + interval list" where
  "reconstruct action =
     (let fs = first_stage action; cols = pivot_columns fs
      in if ''Plate'' \<in> set cols then Inl (Cannot_insert ''Plate'')
         else if ''Product'' \<in> set cols then Inl (Cannot_insert ''Product'')
         else if ''Date'' \<in> set cols then Inl (Cannot_insert ''Date'')
         else Inr (map (select_columns cols) (pivot_table fs)))"

section \<open>Durations (lines 76-80)\<close>

record wide_row = interval +
  Waiting_Time_min :: "real option"
  Loading_Time_min :: "real option"
  Total_Time_min :: "real option"

text \<open>
  \<^verbatim>\<open>(end - start).dt.total_seconds() / 60\<close>: NaN when an operand is NaT.  The floating
  point numbers of the script are modelled as real numbers.
\<close>

definition minutes_between :: "int option \<Rightarrow> int option \<Rightarrow> real option" where
  "minutes_between e s =
     (case (e, s) of
        (Some b, Some a) \<Rightarrow> Some (real_of_int (b - a) / 1000000000 / 60)
      | _ \<Rightarrow> None)"

text \<open>\<^verbatim>\<open>wide.loc[wide[c] < 0, c] = np.nan\<close>; the comparison is false on NaN.\<close>

definition negative_to_nan :: "real option \<Rightarrow> real option" where
  "negative_to_nan x = (case x of None \<Rightarrow> None | Some m \<Rightarrow> if m < 0 then None else Some m)"

definition durations :: "interval \<Rightarrow> wide_row" where
  "durations w =
     \<lparr>w_Date = w_Date w, w_Product = w_Product w, w_Plate = w_Plate w,
      Waiting = Waiting w, Start_Loading = Start_Loading w,
      Complete_Loading = Complete_Loading w,
      Waiting_Time_min = negative_to_nan (minutes_between (Start_Loading w) (Waiting w)),
      Loading_Time_min =
        negative_to_nan (minutes_between (Complete_Loading w) (Start_Loading w)),
      Total_Time_min = negative_to_nan (minutes_between (Complete_Loading w) (Waiting w))\<rparr>"

text \<open>The frame \<^verbatim>\<open>wide\<close> after line 80.\<close>

definition wide :: "event list \<Rightarrow> error + wide_row list" where
  "wide action =
     (case reconstruct action of Inl err \<Rightarrow> Inl err | Inr rows \<Rightarrow> Inr (map durations rows))"

section \<open>Filters and daily summary (lines 92, 110-119)\<close>

definition df_day :: "int \<Rightarrow> string list \<Rightarrow> wide_row list \<Rightarrow> wide_row list" where
  "df_day sel_date sel_products rows =
     filter (\<lambda>w. w_Date w = sel_date \<and> w_Product w \<in> set sel_products) rows"




section \<open>Live status counts (lines 95-102)\<close>

text \<open>
  \<^verbatim>\<open>.groupby("Plate").tail(1)\<close>: the rows that are the last of their group, in the order
  of the frame; a row whose Plate is NaN belongs to no group.
\<close>

fun groupby_tail1 :: "('a \<Rightarrow> 'k option) \<Rightarrow> 'a list \<Rightarrow> 'a list" where
  "groupby_tail1 key [] = []"
| "groupby_tail1 key (x # xs) =
     (if key x \<noteq> None \<and> key x \<notin> set (map key xs) then x # groupby_tail1 key xs
      else groupby_tail1 key xs)"

text \<open>
  Lines 95-99.  \<^verbatim>\<open>sort_values(["Plate","Timestamp"])\<close> sorts on several columns with a
  stable sort, as \<open>sort_key\<close> is: rows equal in both keep the order of the feed.
\<close>

definition latest :: "int \<Rightarrow> event list \<Rightarrow> event list" where
  "latest sel_date action =
     groupby_tail1 Plate
       (sort_key (\<lambda>e. (na_last (Plate e), Timestamp e))
          (filter (\<lambda>e. Date e = sel_date) action))"

text \<open>
  \<^verbatim>\<open>Series.value_counts()\<close>: each value that is not NaN with the number of its
  occurrences.  pandas orders the result by falling count; the order is left out, since
  \<^verbatim>\<open>reindex\<close> reads the result by label only.
\<close>

definition value_counts :: "cell list \<Rightarrow> (string \<times> nat) list" where
  "value_counts xs =
     map (\<lambda>s. (s, length (filter (\<lambda>c. c = Some s) xs))) (remdups (List.map_filter id xs))"

text \<open>\<^verbatim>\<open>.reindex(labels, fill_value=0)\<close>.\<close>

definition reindex :: "string list \<Rightarrow> (string \<times> nat) list \<Rightarrow> (string \<times> nat) list" where
  "reindex labels vc =
     map (\<lambda>s. (s, case map_of vc s of Some n \<Rightarrow> n | None \<Rightarrow> 0)) labels"

definition status_counts :: "int \<Rightarrow> event list \<Rightarrow> (string \<times> nat) list" where
  "status_counts sel_date action =
     reindex [''Waiting'', ''Start Loading'', ''Complete Loading'']
       (value_counts (map Status (latest sel_date action)))"

section \<open>The specification's notions, for comparison with the code\<close>

text \<open>
  The required fields of the feed with the second name the script accepts for each, in
  the order of \<open>req\<close>; a field is missing from a feed when neither name is a column.
\<close>

definition spec_fields :: "(string \<times> string) list" where
  "spec_fields =
     [(''Timestamp'', ''Time''), (''Product'', ''Product Group''),
      (''Plate'', ''Plate Number''), (''Status'', ''Action'')]"

definition spec_missing :: "frame \<Rightarrow> string list" where
  "spec_missing csv =
     map fst (filter (\<lambda>(c, a). c \<notin> set (columns csv) \<and> a \<notin> set (columns csv)) spec_fields)"

text \<open>The raw events of a feed, row by row: timestamp, product, vehicle, status label.\<close>

definition spec_rows :: "frame \<Rightarrow> (cell \<times> cell \<times> cell \<times> cell) list" where
  "spec_rows df =
     zip (column df ''Timestamp'')
       (zip (column df ''Product'') (zip (column df ''Plate'') (column df ''Status'')))"

text \<open>The normalised event of one raw event; none when the timestamp does not parse.\<close>

definition spec_normalize_event ::
    "(string \<Rightarrow> int option) \<Rightarrow> cell \<times> cell \<times> cell \<times> cell \<Rightarrow> event option" where
  "spec_normalize_event parse r =
     (case r of (t, p, v, s) \<Rightarrow>
        map_option
          (\<lambda>n. \<lparr>Timestamp = n, Date = dt_date n, Product = p, Plate = v,
                 Status = normalize_status s\<rparr>)
          (to_datetime parse t))"

text \<open>
  A duration in minutes from the instant \<open>start\<close> to the instant \<open>end\<close>: absent when an
  endpoint is absent or the end is before the start.
\<close>

definition spec_duration :: "int option \<Rightarrow> int option \<Rightarrow> real option" where
  "spec_duration start end =
     (case start of
        None \<Rightarrow> None
      | Some a \<Rightarrow>
          (case end of
             None \<Rightarrow> None
           | Some b \<Rightarrow> if b < a then None else Some (real_of_int (b - a) / 60000000000)))"

text \<open>
  The live state of a vehicle on a date: of the vehicle's events on that date, the one
  with the greatest timestamp, and of several with that timestamp the last of the feed;
  none when the vehicle has no event on that date.
\<close>

definition spec_live_state :: "int \<Rightarrow> event list \<Rightarrow> string \<Rightarrow> event option" where
  "spec_live_state d action p =
     (let es = filter (\<lambda>e. Date e = d \<and> Plate e = Some p) action
      in if es = [] then None
         else Some (last (filter (\<lambda>e. Timestamp e = Max (set (map Timestamp es))) es)))"

text \<open>The vehicles observed on a date.\<close>

definition spec_vehicles :: "int \<Rightarrow> event list \<Rightarrow> string list" where
  "spec_vehicles d action = remdups (List.map_filter Plate (filter (\<lambda>e. Date e = d) action))"

text \<open>For each known status, the number of vehicles whose live state has it.\<close>

definition spec_live_counts :: "int \<Rightarrow> event list \<Rightarrow> (string \<times> nat) list" where
  "spec_live_counts d action =
     map (\<lambda>s. (s, length (filter (\<lambda>p. map_option Status (spec_live_state d action p) = Some (Some s))
                             (spec_vehicles d action))))
       [''Waiting'', ''Start Loading'', ''Complete Loading'']"

text \<open>
  The key (date, product, vehicle) of an event none of whose cells is missing; an event
  with a missing product, vehicle or status has none.
\<close>

definition spec_key :: "event \<Rightarrow> key3 option" where
  "spec_key e =
     (case (Product e, Plate e, Status e) of
        (Some p, Some v, Some s) \<Rightarrow> Some (Date e, p, v)
      | _ \<Rightarrow> None)"

text \<open>
  The earliest timestamp among the events of a key with a given status, absent when the
  key has no event with that status.
\<close>

definition spec_earliest :: "event list \<Rightarrow> key3 \<Rightarrow> string \<Rightarrow> int option" where
  "spec_earliest action k s =
     (let ts = map Timestamp (filter (\<lambda>e. spec_key e = Some k \<and> Status e = Some s) action)
      in if ts = [] then None else Some (Min (set ts)))"

text \<open>One interval record per distinct key, in ascending order of the keys.\<close>

definition spec_intervals :: "event list \<Rightarrow> interval list" where
  "spec_intervals action =
     map (\<lambda>k. case k of (d, p, v) \<Rightarrow>
            \<lparr>w_Date = d, w_Product = p, w_Plate = v,
             Waiting = spec_earliest action k ''Waiting'',
             Start_Loading = spec_earliest action k ''Start Loading'',
             Complete_Loading = spec_earliest action k ''Complete Loading''\<rparr>)
         (sort (remdups (List.map_filter spec_key action)))"

text \<open>
  A status label of an event with a key is the name of one of the key columns.
\<close>

definition spec_collision :: "event list \<Rightarrow> bool" where
  "spec_collision action =
     (\<exists>e \<in> set action. spec_key e \<noteq> None \<and>
        Status e \<in> {Some ''Plate'', Some ''Product'', Some ''Date''})"






section \<open>Example data\<close>

definition example_action :: "event list" where
  "example_action =
     [\<lparr>Timestamp = 10, Date = 0, Product = Some ''Cement'', Plate = Some ''X'', Status = Some ''Waiting''\<rparr>,
      \<lparr>Timestamp = 20, Date = 0, Product = Some ''Cement'', Plate = Some ''X'', Status = Some ''Start Loading''\<rparr>,
      \<lparr>Timestamp = 15, Date = 0, Product = Some ''Sand'', Plate = Some ''Y'', Status = Some ''Unloading''\<rparr>,
      \<lparr>Timestamp = 20, Date = 0, Product = Some ''Cement'', Plate = Some ''X'', Status = Some ''Complete Loading''\<rparr>,
      \<lparr>Timestamp = 12, Date = 0, Product = Some ''Sand'', Plate = Some ''W'', Status = Some ''Waiting''\<rparr>,
      \<lparr>Timestamp = 90, Date = 1, Product = Some ''Sand'', Plate = Some ''W'', Status = Some ''Start Loading''\<rparr>]"

definition example_intervals :: "event list" where
  "example_intervals =
     [\<lparr>Timestamp = 1704097800000000000, Date = 19723, Product = Some ''Cement'',
       Plate = Some ''ABC-1'', Status = Some ''Start Loading''\<rparr>,
      \<lparr>Timestamp = 1704096600000000000, Date = 19723, Product = Some ''Cement'',
       Plate = Some ''ABC-1'', Status = Some ''Waiting''\<rparr>,
      \<lparr>Timestamp = 1704096000000000000, Date = 19723, Product = Some ''Cement'',
       Plate = Some ''ABC-1'', Status = Some ''Waiting''\<rparr>,
      \<lparr>Timestamp = 1704096300000000000, Date = 19723, Product = Some ''Cement'',
       Plate = Some ''AB-7'', Status = Some ''Unloading''\<rparr>]"

definition example_missing_cells :: "event list" where
  "example_missing_cells =
     [\<lparr>Timestamp = 1704096000000000000, Date = 19723, Product = Some ''Cement'',
       Plate = Some ''ABC-1'', Status = Some ''Waiting''\<rparr>,
      \<lparr>Timestamp = 1704096300000000000, Date = 19723, Product = None,
       Plate = Some ''XY-2'', Status = Some ''Waiting''\<rparr>,
      \<lparr>Timestamp = 1704096600000000000, Date = 19723, Product = Some ''Sand'',
       Plate = Some ''Z-3'', Status = None\<rparr>]"



section \<open>Properties of status normalisation\<close>

lemma map_of_status_map: "map_of status_map t = spec_synonym t"
  by (simp add: status_map_def spec_synonym_def)

lemma spec_synonym_range:
  "spec_synonym t = Some v \<Longrightarrow>
     v = ''Waiting'' \<or> v = ''Start Loading'' \<or> v = ''Complete Loading''"
  by (auto simp: spec_synonym_def split: if_splits)

lemma canonical_fixed:
  "spec_synonym (lower (strip ''Waiting'')) = Some ''Waiting''"
  "spec_synonym (lower (strip ''Start Loading'')) = Some ''Start Loading''"
  "spec_synonym (lower (strip ''Complete Loading'')) = Some ''Complete Loading''"
  by (simp_all add: spec_synonym_def lower_def strip_def isspace_def lower_char_def upper_letters_def lower_letters_def)

lemma isspace_code_points: "isspace c = spec_whitespace c"
proof -
  have "c = d \<longleftrightarrow> (of_char c :: nat) = of_char d" for d
    by simp
  then show ?thesis
    unfolding isspace_def spec_whitespace_def Let_def
    by (simp only: list.set insert_iff empty_iff) (simp, arith)
qed

lemma lower_char_all: "\<forall>c. lower_char c = spec_lower_char c"
  by code_simp

lemma lower_code_points: "lower t = map spec_lower_char t"
  by (simp add: lower_def lower_char_all)

lemma dropWhile_rev_keep:
  "xs \<noteq> [] \<Longrightarrow> \<not> P (last xs) \<Longrightarrow> dropWhile P (rev xs) = rev xs"
  by (induction xs rule: rev_induct) simp_all

lemma strip_unique:
  assumes "spec_trimmed s pre t post"
  shows "strip s = t"
proof -
  from assms have s: "s = pre @ t @ post"
    and pre: "\<forall>c \<in> set pre. isspace c" and post: "\<forall>c \<in> set post. isspace c"
    by (simp_all add: spec_trimmed_def list_all_iff isspace_code_points)
  show ?thesis
  proof (cases t)
    case Nil
    with s pre post have "\<forall>c \<in> set s. isspace c"
      by auto
    then have d: "dropWhile isspace s = []"
      by (simp only: dropWhile_eq_Nil_conv)
    show ?thesis
      unfolding strip_def d Nil by simp
  next
    case (Cons c cs)
    with assms have c: "\<not> isspace c" and l: "\<not> isspace (last t)"
      by (simp_all add: spec_trimmed_def isspace_code_points)
    from pre have "dropWhile isspace s = dropWhile isspace (t @ post)"
      unfolding s by (simp add: dropWhile_append2)
    also from c Cons have "\<dots> = t @ post"
      by simp
    finally have "rev (dropWhile isspace s) = rev post @ rev t"
      by simp
    moreover have "dropWhile isspace (rev post @ rev t) = dropWhile isspace (rev t)"
    proof (rule dropWhile_append2)
      fix x
      assume "x \<in> set (rev post)"
      with post show "isspace x" by simp
    qed
    moreover from Cons l have "dropWhile isspace (rev t) = rev t"
      by (intro dropWhile_rev_keep) simp_all
    ultimately show ?thesis
      by (simp add: strip_def)
  qed
qed

lemma strip_trimmed:
  "spec_trimmed s (takeWhile isspace s) (strip s)
     (rev (takeWhile isspace (rev (dropWhile isspace s))))"
proof -
  define u where "u = dropWhile isspace s"
  define q where "q = rev (takeWhile isspace (rev u))"
  have "rev (takeWhile isspace (rev u) @ dropWhile isspace (rev u)) = rev (rev u)"
    by (simp only: takeWhile_dropWhile_id)
  then have "rev (dropWhile isspace (rev u)) @ rev (takeWhile isspace (rev u)) = u"
    by (simp only: rev_append rev_rev_ident)
  then have u: "u = strip s @ q"
    by (simp only: strip_def u_def q_def)
  have "s = takeWhile isspace s @ u"
    by (simp only: u_def takeWhile_dropWhile_id)
  with u have s: "s = takeWhile isspace s @ strip s @ q"
    by simp
  have pre: "list_all spec_whitespace (takeWhile isspace s)"
    by (auto simp: list_all_iff isspace_code_points [symmetric] dest: set_takeWhileD)
  have post: "list_all spec_whitespace q"
    by (auto simp: q_def list_all_iff isspace_code_points [symmetric] dest: set_takeWhileD)
  have ends: "\<not> spec_whitespace (hd (strip s)) \<and> \<not> spec_whitespace (last (strip s))"
    if ne: "strip s \<noteq> []"
  proof -
    from ne have d: "dropWhile isspace (rev u) \<noteq> []"
      by (simp add: strip_def u_def)
    then have "\<not> isspace (hd (dropWhile isspace (rev u)))"
      by (rule hd_dropWhile)
    then have l: "\<not> isspace (last (strip s))"
      by (simp add: strip_def u_def last_rev)
    from ne u have une: "u \<noteq> []" and hd: "hd u = hd (strip s)"
      by simp_all
    from une have "\<not> isspace (hd u)"
      unfolding u_def by (rule hd_dropWhile)
    with hd l show ?thesis
      by (simp add: isspace_code_points)
  qed
  have "case strip s of [] \<Rightarrow> True
        | c # _ \<Rightarrow> \<not> spec_whitespace c \<and> \<not> spec_whitespace (last (strip s))"
  proof (cases "strip s")
    case Nil
    then show ?thesis by simp
  next
    case (Cons c cs)
    with ends have "\<not> spec_whitespace c \<and> \<not> spec_whitespace (last (strip s))"
      by fastforce
    with Cons show ?thesis by simp
  qed
  with s pre post show ?thesis
    unfolding spec_trimmed_def q_def u_def by blast
qed

text \<open>
  Claim C4.  Every status label has a trimmed text: the label without the whitespace
  at its two ends.  The normalised status is the synonym table's entry (waiting, wait;
  start, start loading, loading start; complete, completed, complete loading) for the
  lower-cased trimmed text, and a label whose text matches no entry stays as it was
  written, untrimmed and in its own case: it is never rejected and never replaced by a
  known status.
\<close>

theorem normalize_status_table:
  "(\<exists>pre t post. spec_trimmed s pre t post) \<and>
   (\<forall>pre t post. spec_trimmed s pre t post \<longrightarrow>
      normalize_status (Some s) = Some (spec_status s t))"
proof -
  have "normalize_status (Some s) = Some (spec_status s t)"
    if "spec_trimmed s pre t post" for pre t post
    using strip_unique [OF that]
    by (simp add: normalize_status_def spec_status_def astype_str_def map_of_status_map
        lower_code_points split: option.split)
  with strip_trimmed [of s] show ?thesis
    by blast
qed

theorem normalize_status_table_witness:
  "spec_trimmed ([CHR 0x09] @ '' WAIT'' @ [CHR 0xA0, CHR 0x85])
     [CHR 0x09, CHR 0x20] ''WAIT'' [CHR 0xA0, CHR 0x85] \<and>
   normalize_status (Some ([CHR 0x09] @ '' WAIT'' @ [CHR 0xA0, CHR 0x85])) = Some ''Waiting'' \<and>
   spec_trimmed ''Loading  Start '' [] ''Loading  Start'' '' '' \<and>
   normalize_status (Some ''Loading  Start '') = Some ''Loading  Start '' \<and>
   spec_trimmed ''COMPLETED'' [] ''COMPLETED'' [] \<and>
   normalize_status (Some ''COMPLETED'') = Some ''Complete Loading''"
proof -
  have 1: "spec_trimmed ([CHR 0x09] @ '' WAIT'' @ [CHR 0xA0, CHR 0x85])
     [CHR 0x09, CHR 0x20] ''WAIT'' [CHR 0xA0, CHR 0x85]"
    by (simp add: spec_trimmed_def spec_whitespace_def)
  have 2: "spec_trimmed ''Loading  Start '' [] ''Loading  Start'' '' ''"
    by (simp add: spec_trimmed_def spec_whitespace_def)
  have 3: "spec_trimmed ''COMPLETED'' [] ''COMPLETED'' []"
    by (simp add: spec_trimmed_def spec_whitespace_def)
  from normalize_status_table [of "[CHR 0x09] @ '' WAIT'' @ [CHR 0xA0, CHR 0x85]"] 1
  have r1: "normalize_status (Some ([CHR 0x09] @ '' WAIT'' @ [CHR 0xA0, CHR 0x85])) =
      Some (spec_status ([CHR 0x09] @ '' WAIT'' @ [CHR 0xA0, CHR 0x85]) ''WAIT'')"
    by blast
  from normalize_status_table [of "''Loading  Start ''"] 2
  have r2: "normalize_status (Some ''Loading  Start '') =
      Some (spec_status ''Loading  Start '' ''Loading  Start'')"
    by blast
  from normalize_status_table [of "''COMPLETED''"] 3
  have r3: "normalize_status (Some ''COMPLETED'') = Some (spec_status ''COMPLETED'' ''COMPLETED'')"
    by blast
  have s1: "spec_status ([CHR 0x09] @ '' WAIT'' @ [CHR 0xA0, CHR 0x85]) ''WAIT'' = ''Waiting''"
    by (simp add: spec_status_def lower_char_all [rule_format, symmetric] spec_synonym_def
        lower_char_def upper_letters_def lower_letters_def)
  have s2: "spec_status ''Loading  Start '' ''Loading  Start'' = ''Loading  Start ''"
    by (simp add: spec_status_def lower_char_all [rule_format, symmetric] spec_synonym_def
        lower_char_def upper_letters_def lower_letters_def)
  have s3: "spec_status ''COMPLETED'' ''COMPLETED'' = ''Complete Loading''"
    by (simp add: spec_status_def lower_char_all [rule_format, symmetric] spec_synonym_def
        lower_char_def upper_letters_def lower_letters_def)
  from 1 2 3 r1 r2 r3 show ?thesis
    by (simp only: s1 s2 s3 simp_thms)
qed

lemma normalize_canonical:
  "spec_synonym t = Some v \<Longrightarrow> normalize_status (Some v) = Some v"
  by (auto dest!: spec_synonym_range
      simp: normalize_status_def astype_str_def map_of_status_map canonical_fixed)

text \<open>
  Claim C9.  Normalisation is idempotent: a cell that is already a result of the
  normalisation (a canonical status, a label passed through, or a missing cell) is
  returned unchanged.
\<close>

theorem normalize_status_idempotent:
  "normalize_status (normalize_status c) = normalize_status c"
proof (cases "map_of status_map (lower (strip (astype_str c)))")
  case None
  then show ?thesis by (simp add: normalize_status_def)
next
  case (Some v)
  then have "normalize_status c = Some v" by (simp add: normalize_status_def)
  moreover from Some have "normalize_status (Some v) = Some v"
    by (simp add: map_of_status_map normalize_canonical)
  ultimately show ?thesis by simp
qed

theorem normalize_status_idempotent_witness:
  "normalize_status (normalize_status (Some ''wait'')) = Some ''Waiting'' \<and>
   normalize_status (normalize_status (Some ''Unloading'')) = Some ''Unloading''"
  using normalize_status_idempotent [of "Some ''wait''"]
    normalize_status_idempotent [of "Some ''Unloading''"]
  by (simp add: normalize_status_def astype_str_def map_of_status_map spec_synonym_def
      lower_def strip_def isspace_def lower_char_def upper_letters_def lower_letters_def)

section \<open>Properties of loading\<close>

lemma columns_rename:
  "columns (rename k v df) = map (\<lambda>c. if c = k then v else c) (columns df)"
  by (induction df) (auto simp: rename_def columns_def)

lemma mem_columns_rename:
  "x \<in> set (columns (rename k v df)) \<longleftrightarrow>
     (x = v \<and> k \<in> set (columns df)) \<or> (x \<noteq> k \<and> x \<in> set (columns df))"
  by (auto simp: columns_rename)

lemma rename_step_other:
  "x \<noteq> k \<Longrightarrow> x \<noteq> v \<Longrightarrow>
     x \<in> set (columns (rename_step k v df)) \<longleftrightarrow> x \<in> set (columns df)"
  by (simp add: rename_step_def mem_columns_rename)

lemma rename_step_target:
  "k \<noteq> v \<Longrightarrow>
     v \<in> set (columns (rename_step k v df)) \<longleftrightarrow>
       v \<in> set (columns df) \<or> k \<in> set (columns df)"
  by (auto simp: rename_step_def mem_columns_rename)

lemma required_after_rename:
  "''Timestamp'' \<in> set (columns (rename_columns rename_map csv)) \<longleftrightarrow>
     ''Timestamp'' \<in> set (columns csv) \<or> ''Time'' \<in> set (columns csv)"
  "''Product'' \<in> set (columns (rename_columns rename_map csv)) \<longleftrightarrow>
     ''Product'' \<in> set (columns csv) \<or> ''Product Group'' \<in> set (columns csv)"
  "''Plate'' \<in> set (columns (rename_columns rename_map csv)) \<longleftrightarrow>
     ''Plate'' \<in> set (columns csv) \<or> ''Plate Number'' \<in> set (columns csv)"
  "''Status'' \<in> set (columns (rename_columns rename_map csv)) \<longleftrightarrow>
     ''Status'' \<in> set (columns csv) \<or> ''Action'' \<in> set (columns csv)"
  by (simp_all add: rename_map_def rename_step_other rename_step_target)

lemma missing_after_rename:
  "filter (\<lambda>c. c \<notin> set (columns (rename_columns rename_map csv))) req = spec_missing csv"
  by (simp add: req_def spec_missing_def spec_fields_def required_after_rename)

text \<open>
  Claim C8.  When a required field (timestamp, product, vehicle, status) is missing
  from the feed under both of its names, loading fails as a whole with the error that
  lists the missing fields, and returns no events.
\<close>

theorem load_action_schema_error:
  "spec_missing csv \<noteq> [] \<Longrightarrow>
     load_action parse csv = Inl (Missing_columns (spec_missing csv))"
  by (simp add: load_action_def Let_def missing_after_rename)

theorem load_action_schema_error_witness:
  "spec_missing
     [(''Time'', [Some ''2024-01-01 08:00'']), (''Product'', [Some ''Cement'']),
      (''Note'', [None])] \<noteq> [] \<and>
   load_action (\<lambda>s. None)
     [(''Time'', [Some ''2024-01-01 08:00'']), (''Product'', [Some ''Cement'']),
      (''Note'', [None])] = Inl (Missing_columns [''Plate'', ''Status''])"
proof -
  have h: "spec_missing
     [(''Time'', [Some ''2024-01-01 08:00'']), (''Product'', [Some ''Cement'']),
      (''Note'', [None])] \<noteq> []"
    by (simp add: spec_missing_def spec_fields_def columns_def)
  show ?thesis
    using h load_action_schema_error [OF h, of "\<lambda>s. None"]
    by (simp add: spec_missing_def spec_fields_def columns_def)
qed

lemma map_filter_zip_rows:
  "List.map_filter dropna_Timestamp
     (zip (map (to_datetime parse) ts) (zip ps (zip vs (map normalize_status ss)))) =
   List.map_filter (spec_normalize_event parse) (zip ts (zip ps (zip vs ss)))"
proof (induction ts arbitrary: ps vs ss)
  case Nil
  then show ?case by (simp add: List.map_filter_simps)
next
  case (Cons t ts)
  show ?case
  proof (cases ps)
    case Nil
    then show ?thesis by (simp add: List.map_filter_simps)
  next
    case ps: (Cons p ps')
    show ?thesis
    proof (cases vs)
      case Nil
      then show ?thesis by (simp add: ps List.map_filter_simps)
    next
      case vs: (Cons v vs')
      show ?thesis
      proof (cases ss)
        case Nil
        then show ?thesis by (simp add: ps vs List.map_filter_simps)
      next
        case (Cons s ss')
        then show ?thesis
          using Cons.IH [of ps' vs' ss']
          by (simp add: ps vs List.map_filter_simps dropna_Timestamp_def
              spec_normalize_event_def split: option.split)
      qed
    qed
  qed
qed

lemma length_map_filter_le: "length (List.map_filter f xs) \<le> length xs"
  by (simp add: List.map_filter_def)

text \<open>
  Claim C7.  When no required field is missing, loading does not fail, whatever the
  timestamps are: the result is the sequence of the normalised events of the rows whose
  timestamp parses, in the order of the feed.  A row whose timestamp does not parse
  (unreadable or empty) is dropped and no other row is; every event of the result
  carries the parsed timestamp of a row, and the result is no longer than the feed.
\<close>

theorem load_action_drops_unparsed:
  assumes "spec_missing csv = []"
  shows "\<exists>evs. load_action parse csv = Inr evs \<and>
     evs = List.map_filter (spec_normalize_event parse)
             (spec_rows (rename_columns rename_map csv)) \<and>
     length evs \<le> length (spec_rows (rename_columns rename_map csv)) \<and>
     (\<forall>e \<in> set evs. \<exists>r \<in> set (spec_rows (rename_columns rename_map csv)).
        to_datetime parse (fst r) = Some (Timestamp e)) \<and>
     (\<forall>r. spec_normalize_event parse r = None \<longleftrightarrow> to_datetime parse (fst r) = None)"
proof -
  let ?df = "rename_columns rename_map csv"
  have 1: "load_action parse csv =
      Inr (List.map_filter (spec_normalize_event parse) (spec_rows ?df))"
    using assms
    by (simp add: load_action_def Let_def missing_after_rename map_filter_zip_rows spec_rows_def)
  have 2: "\<exists>r \<in> set (spec_rows ?df). to_datetime parse (fst r) = Some (Timestamp e)"
    if "e \<in> set (List.map_filter (spec_normalize_event parse) (spec_rows ?df))" for e
    using that
    by (auto simp: List.map_filter_def spec_normalize_event_def split: option.splits
        intro!: bexI)
  have 3: "spec_normalize_event parse r = None \<longleftrightarrow> to_datetime parse (fst r) = None" for r
    by (cases r) (simp add: spec_normalize_event_def)
  show ?thesis
    using 1 2 3 by (simp add: length_map_filter_le)
qed

theorem load_action_drops_unparsed_witness:
  "spec_missing
     [(''Time'', [Some ''2024-01-01 08:00'', Some ''soon'', None, Some ''2024-01-01 08:30'']),
      (''Product'', [Some ''Cement'', Some ''Cement'', Some ''Sand'', Some ''Cement'']),
      (''Plate'', [Some ''ABC-1'', Some ''ABC-1'', Some ''XY-2'', Some ''ABC-1'']),
      (''Action'', [Some ''wait'', Some ''start'', Some ''wait'', Some '' START '']) ] = [] \<and>
   load_action
     (map_of [(''2024-01-01 08:00'', 1704096000000000000),
              (''2024-01-01 08:30'', 1704097800000000000)])
     [(''Time'', [Some ''2024-01-01 08:00'', Some ''soon'', None, Some ''2024-01-01 08:30'']),
      (''Product'', [Some ''Cement'', Some ''Cement'', Some ''Sand'', Some ''Cement'']),
      (''Plate'', [Some ''ABC-1'', Some ''ABC-1'', Some ''XY-2'', Some ''ABC-1'']),
      (''Action'', [Some ''wait'', Some ''start'', Some ''wait'', Some '' START '']) ] =
   Inr [\<lparr>Timestamp = 1704096000000000000, Date = 19723, Product = Some ''Cement'',
         Plate = Some ''ABC-1'', Status = Some ''Waiting''\<rparr>,
        \<lparr>Timestamp = 1704097800000000000, Date = 19723, Product = Some ''Cement'',
         Plate = Some ''ABC-1'', Status = Some ''Start Loading''\<rparr>]"
proof -
  have h: "spec_missing
     [(''Time'', [Some ''2024-01-01 08:00'', Some ''soon'', None, Some ''2024-01-01 08:30'']),
      (''Product'', [Some ''Cement'', Some ''Cement'', Some ''Sand'', Some ''Cement'']),
      (''Plate'', [Some ''ABC-1'', Some ''ABC-1'', Some ''XY-2'', Some ''ABC-1'']),
      (''Action'', [Some ''wait'', Some ''start'', Some ''wait'', Some '' START '']) ] = []"
    by (simp add: spec_missing_def spec_fields_def columns_def)
  show ?thesis
    using h load_action_drops_unparsed [OF h, of "map_of [(''2024-01-01 08:00'', 1704096000000000000),
              (''2024-01-01 08:30'', 1704097800000000000)]"]
    by (simp add: spec_rows_def rename_map_def rename_step_def rename_def columns_def column_def
        List.map_filter_simps spec_normalize_event_def to_datetime_def dt_date_def ns_per_day_def
        normalize_status_def astype_str_def map_of_status_map spec_synonym_def
        lower_def strip_def isspace_def lower_char_def upper_letters_def lower_letters_def)
qed

section \<open>Properties of the durations\<close>

lemma negative_to_nan_minutes:
  "negative_to_nan (minutes_between e s) = spec_duration s e"
  by (auto simp: negative_to_nan_def minutes_between_def spec_duration_def divide_less_0_iff
      split: option.splits)

lemma spec_duration_nonneg: "spec_duration s e = Some m \<Longrightarrow> 0 \<le> m"
  by (auto simp: spec_duration_def split: option.splits if_splits)

text \<open>
  Claim C2.  Each of the three durations of a record (waiting to start, start to
  complete, waiting to complete) is absent when an endpoint is absent, is the elapsed
  time end minus start in minutes when both are present and the end is not before the
  start, and is absent when the end is before the start; so no duration is negative.
\<close>

theorem durations_guarded:
  "Waiting_Time_min (durations w) = spec_duration (Waiting w) (Start_Loading w) \<and>
   Loading_Time_min (durations w) = spec_duration (Start_Loading w) (Complete_Loading w) \<and>
   Total_Time_min (durations w) = spec_duration (Waiting w) (Complete_Loading w) \<and>
   (\<forall>m. Waiting_Time_min (durations w) = Some m \<or> Loading_Time_min (durations w) = Some m \<or>
        Total_Time_min (durations w) = Some m \<longrightarrow> 0 \<le> m)"
  by (auto simp: durations_def negative_to_nan_minutes dest: spec_duration_nonneg)

theorem durations_guarded_witness:
  "Waiting_Time_min (durations \<lparr>w_Date = 0, w_Product = ''Cement'', w_Plate = ''ABC-1'',
      Waiting = Some 28800000000000, Start_Loading = Some 34200000000000,
      Complete_Loading = Some 32400000000000\<rparr>) = Some 90 \<and>
   Loading_Time_min (durations \<lparr>w_Date = 0, w_Product = ''Cement'', w_Plate = ''ABC-1'',
      Waiting = Some 28800000000000, Start_Loading = Some 34200000000000,
      Complete_Loading = Some 32400000000000\<rparr>) = None \<and>
   Total_Time_min (durations \<lparr>w_Date = 0, w_Product = ''Cement'', w_Plate = ''ABC-1'',
      Waiting = Some 28800000000000, Start_Loading = Some 34200000000000,
      Complete_Loading = Some 32400000000000\<rparr>) = Some 60 \<and>
   (0::real) \<le> 90 \<and> (0::real) \<le> 60"
  using durations_guarded [of "\<lparr>w_Date = 0, w_Product = ''Cement'', w_Plate = ''ABC-1'',
      Waiting = Some 28800000000000, Start_Loading = Some 34200000000000,
      Complete_Loading = Some 32400000000000\<rparr>"]
  by (simp add: spec_duration_def)

text \<open>
  Claim C10.  The guard discards only durations below zero: when the two endpoints of
  a duration are present and equal, the duration is the known value zero.
\<close>

theorem zero_duration_kept:
  "(Waiting w = Some t \<and> Start_Loading w = Some t \<longrightarrow>
      Waiting_Time_min (durations w) = Some 0) \<and>
   (Start_Loading w = Some t \<and> Complete_Loading w = Some t \<longrightarrow>
      Loading_Time_min (durations w) = Some 0) \<and>
   (Waiting w = Some t \<and> Complete_Loading w = Some t \<longrightarrow>
      Total_Time_min (durations w) = Some 0)"
  by (auto simp: durations_def negative_to_nan_minutes spec_duration_def)

theorem zero_duration_kept_witness:
  "Waiting_Time_min (durations \<lparr>w_Date = 0, w_Product = ''Cement'', w_Plate = ''ABC-1'',
      Waiting = Some 28800000000000, Start_Loading = Some 28800000000000,
      Complete_Loading = Some 28800000000000\<rparr>) = Some 0 \<and>
   Loading_Time_min (durations \<lparr>w_Date = 0, w_Product = ''Cement'', w_Plate = ''ABC-1'',
      Waiting = Some 28800000000000, Start_Loading = Some 28800000000000,
      Complete_Loading = Some 28800000000000\<rparr>) = Some 0 \<and>
   Total_Time_min (durations \<lparr>w_Date = 0, w_Product = ''Cement'', w_Plate = ''ABC-1'',
      Waiting = Some 28800000000000, Start_Loading = Some 28800000000000,
      Complete_Loading = Some 28800000000000\<rparr>) = Some 0"
  using zero_duration_kept [of "\<lparr>w_Date = 0, w_Product = ''Cement'', w_Plate = ''ABC-1'',
      Waiting = Some 28800000000000, Start_Loading = Some 28800000000000,
      Complete_Loading = Some 28800000000000\<rparr>" 28800000000000]
  by simp

section \<open>Properties of the live state\<close>

lemma groupby_tail1_subset: "set (groupby_tail1 key xs) \<subseteq> {x \<in> set xs. key x \<noteq> None}"
  by (induction xs) auto

lemma filter_groupby_tail1:
  "filter (\<lambda>x. key x = Some k) (groupby_tail1 key xs) =
     (if filter (\<lambda>x. key x = Some k) xs = [] then []
      else [last (filter (\<lambda>x. key x = Some k) xs)])"
proof (induction xs)
  case Nil
  show ?case by simp
next
  case (Cons x xs)
  show ?case
  proof (cases "key x = Some k")
    case False
    then show ?thesis using Cons.IH by simp
  next
    case True
    show ?thesis
    proof (cases "Some k \<in> set (map key xs)")
      case False
      then have "filter (\<lambda>x. key x = Some k) xs = []"
        by (fastforce simp: filter_empty_conv image_iff)
      with True False Cons.IH show ?thesis by simp
    next
      case in_rest: True
      then have "filter (\<lambda>x. key x = Some k) xs \<noteq> []"
        by (auto simp: filter_empty_conv)
      with True in_rest Cons.IH show ?thesis by simp
    qed
  qed
qed

lemma last_filter_keep: "xs \<noteq> [] \<Longrightarrow> P (last xs) \<Longrightarrow> last (filter P xs) = last xs"
  by (induction xs rule: rev_induct) auto

lemma sorted_map_last_ge:
  "sorted (map f xs) \<Longrightarrow> x \<in> set xs \<Longrightarrow> f x \<le> f (last xs)"
  by (induction xs rule: rev_induct) (auto simp: sorted_append)

lemma sorted_map_hd_le:
  "sorted (map f xs) \<Longrightarrow> x \<in> set xs \<Longrightarrow> f (hd xs) \<le> f x"
  by (induction xs) auto

lemma na_last_inj: "na_last a = na_last b \<longleftrightarrow> a = b"
  by (auto simp: na_last_def split: option.splits)

text \<open>The last row of a group of the frame sorted on (key, value), stably.\<close>

lemma last_of_sorted_group:
  fixes f :: "'a \<Rightarrow> int" and c :: "'a \<Rightarrow> cell"
  assumes ne: "filter (\<lambda>x. c x = Some p) xs \<noteq> []"
  defines "g \<equiv> filter (\<lambda>x. c x = Some p) (sort_key (\<lambda>x. (na_last (c x), f x)) xs)"
  defines "m \<equiv> Max (set (map f (filter (\<lambda>x. c x = Some p) xs)))"
  shows "g \<noteq> []"
    and "last g = last (filter (\<lambda>x. f x = m) (filter (\<lambda>x. c x = Some p) xs))"
proof -
  let ?k = "\<lambda>x. (na_last (c x), f x)"
  let ?ys = "sort_key ?k xs"
  have set_g: "set g = set (filter (\<lambda>x. c x = Some p) xs)"
    by (simp add: g_def)
  with ne show gne: "g \<noteq> []"
    by (metis set_empty)
  have "sorted (map ?k g)"
    unfolding g_def by (rule sorted_filter) (rule sorted_sort_key)
  moreover have "\<forall>x \<in> set g. na_last (c x) = na_last (Some p)"
    by (simp add: g_def)
  ultimately have sorted_f: "sorted (map f g)"
    by (induction g) (auto simp: less_eq_prod_def)
  have "f (last g) \<in> set (map f (filter (\<lambda>x. c x = Some p) xs))"
    using gne set_g last_in_set [of g] by (metis imageI set_map)
  moreover have "y \<le> f (last g)" if "y \<in> set (map f (filter (\<lambda>x. c x = Some p) xs))" for y
  proof -
    from that set_g obtain x where "x \<in> set g" "y = f x" by auto
    with sorted_f show ?thesis by (simp add: sorted_map_last_ge)
  qed
  ultimately have m_eq: "m = f (last g)"
    unfolding m_def by (intro Max_eqI) auto
  have "filter (\<lambda>x. f x = m) g = filter (\<lambda>x. ?k x = (na_last (Some p), m)) ?ys"
    by (simp add: g_def na_last_inj conj_commute)
  also have "\<dots> = filter (\<lambda>x. ?k x = (na_last (Some p), m)) xs"
    by (rule sort_key_stable)
  also have "\<dots> = filter (\<lambda>x. f x = m) (filter (\<lambda>x. c x = Some p) xs)"
    by (simp add: na_last_inj conj_commute)
  finally have "last (filter (\<lambda>x. f x = m) (filter (\<lambda>x. c x = Some p) xs)) =
      last (filter (\<lambda>x. f x = m) g)"
    by simp
  also have "\<dots> = last g"
    using gne m_eq by (simp add: last_filter_keep)
  finally show "last g = last (filter (\<lambda>x. f x = m) (filter (\<lambda>x. c x = Some p) xs))"
    by simp
qed

lemma latest_per_plate:
  "filter (\<lambda>e. Plate e = Some p) (latest d action) =
     (case spec_live_state d action p of None \<Rightarrow> [] | Some e \<Rightarrow> [e])"
proof -
  let ?xs = "filter (\<lambda>e. Date e = d) action"
  let ?ys = "sort_key (\<lambda>e. (na_last (Plate e), Timestamp e)) ?xs"
  have es: "filter (\<lambda>e. Date e = d \<and> Plate e = Some p) action = filter (\<lambda>e. Plate e = Some p) ?xs"
    by (simp add: conj_commute)
  show ?thesis
  proof (cases "filter (\<lambda>e. Plate e = Some p) ?xs = []")
    case True
    then have "filter (\<lambda>e. Plate e = Some p) ?ys = []"
      by (simp add: filter_sort)
    with True show ?thesis
      by (simp add: latest_def filter_groupby_tail1 spec_live_state_def es del: filter_filter)
  next
    case False
    from last_of_sorted_group [OF False, of Timestamp] False show ?thesis
      by (simp add: latest_def filter_groupby_tail1 spec_live_state_def es del: filter_filter)
  qed
qed

text \<open>
  Claim C5.  For every feed and date, the frame \<^verbatim>\<open>latest\<close> holds for each vehicle
  exactly its live state: the vehicle's event of that date with the greatest timestamp,
  and of several events with that timestamp the one that comes last in the feed.  It
  holds nothing for a vehicle without an event on that date, and no row without a
  vehicle.
\<close>

theorem latest_is_live_state:
  "filter (\<lambda>e. Plate e = Some p) (latest d action) =
     (case spec_live_state d action p of None \<Rightarrow> [] | Some e \<Rightarrow> [e]) \<and>
   (\<forall>e \<in> set (latest d action). Plate e \<noteq> None \<and> Date e = d \<and> e \<in> set action)"
proof -
  have "\<forall>e \<in> set (latest d action). Plate e \<noteq> None \<and> Date e = d \<and> e \<in> set action"
    using groupby_tail1_subset [of Plate "sort_key (\<lambda>e. (na_last (Plate e), Timestamp e))
          (filter (\<lambda>e. Date e = d) action)"]
    by (auto simp: latest_def)
  then show ?thesis
    by (simp only: latest_per_plate simp_thms)
qed

theorem latest_is_live_state_witness:
  "filter (\<lambda>e. Plate e = Some ''X'') (latest 0 example_action) =
     [\<lparr>Timestamp = 20, Date = 0, Product = Some ''Cement'', Plate = Some ''X'',
       Status = Some ''Complete Loading''\<rparr>]"
  using latest_is_live_state [of "''X''" 0 example_action]
  by (simp add: spec_live_state_def example_action_def)

lemma in_set_map_filter:
  "y \<in> set (List.map_filter f xs) \<longleftrightarrow> (\<exists>x \<in> set xs. f x = Some y)"
  by (induction xs) (auto simp: List.map_filter_simps split: option.splits)

lemma map_of_value_counts:
  "(case map_of (value_counts xs) s of Some n \<Rightarrow> n | None \<Rightarrow> 0) =
     length (filter (\<lambda>c. c = Some s) xs)"
proof -
  have mo: "map_of (map (\<lambda>s. (s, g s)) ks) s = (if s \<in> set ks then Some (g s) else None)"
    for g :: "string \<Rightarrow> nat" and ks
    by (induction ks) auto
  have "s \<in> set (remdups (List.map_filter id xs)) \<longleftrightarrow> Some s \<in> set xs"
    by (simp add: in_set_map_filter)
  moreover have "Some s \<notin> set xs \<Longrightarrow> filter (\<lambda>c. c = Some s) xs = []"
    by (auto simp: filter_empty_conv)
  ultimately show ?thesis
    by (auto simp: value_counts_def mo)
qed

lemma distinct_map_if_groups_small:
  "(\<And>k. length (filter (\<lambda>x. f x = k) xs) \<le> 1) \<Longrightarrow> distinct (map f xs)"
proof (induction xs)
  case Nil
  show ?case by simp
next
  case (Cons x xs)
  have "f x \<notin> f ` set xs"
  proof
    assume "f x \<in> f ` set xs"
    then have "filter (\<lambda>y. f y = f x) xs \<noteq> []"
      by (auto simp: filter_empty_conv)
    then have "length (filter (\<lambda>y. f y = f x) xs) \<ge> 1"
      by (simp add: Suc_leI)
    with Cons.prems [of "f x"] show False by simp
  qed
  moreover have "distinct (map f xs)"
  proof (rule Cons.IH)
    fix k
    show "length (filter (\<lambda>x. f x = k) xs) \<le> 1"
      using Cons.prems [of k] by (simp split: if_splits)
  qed
  ultimately show ?case by simp
qed

lemma spec_live_state_None:
  "spec_live_state d action p = None \<longleftrightarrow> p \<notin> set (spec_vehicles d action)"
  by (auto simp: spec_live_state_def spec_vehicles_def Let_def filter_empty_conv
      in_set_map_filter)

lemma latest_rows:
  assumes "e \<in> set (latest d action)"
  shows "\<exists>p. Plate e = Some p \<and> spec_live_state d action p = Some e"
proof -
  from assms groupby_tail1_subset [of Plate] obtain p where p: "Plate e = Some p"
    unfolding latest_def by blast
  with assms have "e \<in> set (filter (\<lambda>e. Plate e = Some p) (latest d action))"
    by simp
  then have "spec_live_state d action p = Some e"
    unfolding latest_per_plate by (auto split: option.splits)
  with p show ?thesis by blast
qed

lemma latest_plates:
  "distinct (map (the \<circ> Plate) (latest d action))"
  "set (map (the \<circ> Plate) (latest d action)) = set (spec_vehicles d action)"
proof -
  let ?L = "latest d action"
  have eq: "filter (\<lambda>e. (the \<circ> Plate) e = p) ?L = filter (\<lambda>e. Plate e = Some p) ?L" for p
    by (rule filter_cong) (auto dest: latest_rows)
  show "distinct (map (the \<circ> Plate) ?L)"
    by (rule distinct_map_if_groups_small)
      (simp only: eq latest_per_plate, simp split: option.split)
  show "set (map (the \<circ> Plate) ?L) = set (spec_vehicles d action)"
  proof (intro set_eqI iffI)
    fix p
    assume "p \<in> set (map (the \<circ> Plate) ?L)"
    then obtain e where "e \<in> set ?L" "the (Plate e) = p" by auto
    with latest_rows [of e d action] have "spec_live_state d action p \<noteq> None" by auto
    then show "p \<in> set (spec_vehicles d action)" by (simp add: spec_live_state_None)
  next
    fix p
    assume "p \<in> set (spec_vehicles d action)"
    then obtain e where "spec_live_state d action p = Some e"
      using spec_live_state_None [of d action p] by auto
    then have "filter (\<lambda>e. Plate e = Some p) ?L = [e]"
      by (simp add: latest_per_plate)
    then have "e \<in> set ?L \<and> Plate e = Some p"
      using filter_set [of "\<lambda>e. Plate e = Some p" ?L] by auto
    then show "p \<in> set (map (the \<circ> Plate) ?L)" by force
  qed
qed

lemma count_latest:
  "length (filter (\<lambda>e. Status e = Some s) (latest d action)) =
   length (filter (\<lambda>p. map_option Status (spec_live_state d action p) = Some (Some s))
             (spec_vehicles d action))"
proof -
  let ?L = "latest d action"
  let ?Q = "\<lambda>p. map_option Status (spec_live_state d action p) = Some (Some s)"
  have "filter (\<lambda>e. Status e = Some s) ?L = filter (?Q \<circ> (the \<circ> Plate)) ?L"
    by (rule filter_cong) (auto dest: latest_rows)
  then have "length (filter (\<lambda>e. Status e = Some s) ?L) =
      length (filter ?Q (map (the \<circ> Plate) ?L))"
    by (simp add: filter_map)
  also have "\<dots> = card ({p. ?Q p} \<inter> set (map (the \<circ> Plate) ?L))"
    by (rule distinct_length_filter) (rule latest_plates)
  also have "\<dots> = card ({p. ?Q p} \<inter> set (spec_vehicles d action))"
    by (simp only: latest_plates)
  also have "\<dots> = length (filter ?Q (spec_vehicles d action))"
    by (rule distinct_length_filter [symmetric]) (simp add: spec_vehicles_def)
  finally show ?thesis .
qed

text \<open>
  Claim C6.  The live counts are the three known statuses in their fixed order, each
  with the number of vehicles whose live state on the date has that status (zero when
  there is none); a vehicle whose live state has another label is in none of the three.
\<close>

theorem status_counts_live:
  "status_counts d action = spec_live_counts d action"
  by (simp add: status_counts_def reindex_def spec_live_counts_def map_of_value_counts
      filter_map comp_def count_latest)

theorem status_counts_live_witness:
  "status_counts 0 example_action =
     [(''Waiting'', 1), (''Start Loading'', 0), (''Complete Loading'', 1)]"
  using status_counts_live [of 0 example_action]
  by (simp add: spec_live_counts_def spec_vehicles_def spec_live_state_def example_action_def
      List.map_filter_simps)

section \<open>Properties of the interval reconstruction\<close>

lemma key4_split:
  "key4 e = Some k \<longleftrightarrow> spec_key e = Some (index3 k) \<and> Status e = Some (status4 k)"
  by (cases k) (auto simp: key4_def spec_key_def index3_def status4_def split: option.splits)

lemma key4_eq:
  "key4 e = Some (d, p, v, s) \<longleftrightarrow>
     Date e = d \<and> Product e = Some p \<and> Plate e = Some v \<and> Status e = Some s"
  by (auto simp: key4_def split: option.splits)

lemma sorted_constant_prefix:
  fixes f :: "'a \<Rightarrow> int"
  shows "sorted (map (\<lambda>x. (a, b, c, d, f x)) xs) \<Longrightarrow> sorted (map f xs)"
  by (induction xs) (auto simp: less_eq_prod_def)

lemma sorted_group_Timestamp:
  assumes "sorted (map (\<lambda>e. (Date e, na_last (Product e), na_last (Plate e),
                              na_last (Status e), Timestamp e)) g)"
    and "\<forall>e \<in> set g. key4 e = Some k"
  shows "sorted (map Timestamp g)"
proof -
  obtain d p v s where k: "k = (d, p, v, s)" by (cases k)
  have "map (\<lambda>e. (Date e, na_last (Product e), na_last (Plate e),
                   na_last (Status e), Timestamp e)) g =
        map (\<lambda>e. (d, na_last (Some p), na_last (Some v), na_last (Some s), Timestamp e)) g"
    using assms(2) by (intro map_cong) (auto simp: k key4_eq)
  with assms(1) show ?thesis
    by (simp only: sorted_constant_prefix)
qed

lemma hd_group_is_Min:
  assumes "filter (\<lambda>e. key4 e = Some k) action \<noteq> []"
  shows "Timestamp (hd (filter (\<lambda>e. key4 e = Some k) (sort_values5 action))) =
         Min (set (map Timestamp (filter (\<lambda>e. key4 e = Some k) action)))"
proof -
  define g where "g = filter (\<lambda>e. key4 e = Some k) (sort_values5 action)"
  define A where "A = set (map Timestamp (filter (\<lambda>e. key4 e = Some k) action))"
  have set_g: "set g = set (filter (\<lambda>e. key4 e = Some k) action)"
    by (simp add: g_def sort_values5_def)
  have A_g: "A = Timestamp ` set g"
    by (simp only: A_def set_g set_map)
  from assms have "set (filter (\<lambda>e. key4 e = Some k) action) \<noteq> {}"
    by (simp only: set_empty not_False_eq_True)
  with set_g have gne: "g \<noteq> []"
    by (simp only: set_empty [symmetric] not_False_eq_True)
  have "sorted (map (\<lambda>e. (Date e, na_last (Product e), na_last (Plate e),
                            na_last (Status e), Timestamp e)) g)"
    unfolding g_def sort_values5_def by (rule sorted_filter) (rule sorted_sort_key)
  moreover have "\<forall>e \<in> set g. key4 e = Some k"
    by (simp add: g_def)
  ultimately have "sorted (map Timestamp g)"
    by (rule sorted_group_Timestamp)
  then have le: "Timestamp (hd g) \<le> Timestamp x" if "x \<in> set g" for x
    using that by (rule sorted_map_hd_le)
  have "Min A = Timestamp (hd g)"
  proof (rule Min_eqI)
    show "finite A" by (simp add: A_def)
    show "Timestamp (hd g) \<le> y" if "y \<in> A" for y
      using that le unfolding A_g by blast
    show "Timestamp (hd g) \<in> A"
      unfolding A_g using hd_in_set [OF gne] by (rule imageI)
  qed
  then show ?thesis
    by (simp only: A_def g_def)
qed

lemma first_stage_eq:
  "first_stage action =
     map (\<lambda>k. (k, Min (set (map Timestamp (filter (\<lambda>e. key4 e = Some k) action)))))
       (sort (remdups (List.map_filter key4 action)))"
proof -
  have set_keys: "set (List.map_filter key4 (sort_values5 action)) = set (List.map_filter key4 action)"
    by (auto simp: in_set_map_filter sort_values5_def)
  have sort_eq: "sort (remdups (List.map_filter key4 (sort_values5 action))) =
      sort (remdups (List.map_filter key4 action))"
    by (rule sorted_distinct_set_unique) (simp_all add: set_keys)
  have row: "(case filter (\<lambda>e. key4 e = Some k) (sort_values5 action) of
               [] \<Rightarrow> None | e # _ \<Rightarrow> Some (k, Timestamp e)) =
             Some (k, Min (set (map Timestamp (filter (\<lambda>e. key4 e = Some k) action))))"
    if "k \<in> set (List.map_filter key4 action)" for k
  proof -
    from that have ne: "filter (\<lambda>e. key4 e = Some k) action \<noteq> []"
      by (auto simp: in_set_map_filter filter_empty_conv)
    moreover have "set (filter (\<lambda>e. key4 e = Some k) (sort_values5 action)) =
        set (filter (\<lambda>e. key4 e = Some k) action)"
      by (simp add: sort_values5_def)
    ultimately have "filter (\<lambda>e. key4 e = Some k) (sort_values5 action) \<noteq> []"
      by (metis set_empty)
    with hd_group_is_Min [OF ne] show ?thesis
      by (cases "filter (\<lambda>e. key4 e = Some k) (sort_values5 action)") simp_all
  qed
  have gen: "List.map_filter (\<lambda>(k, g). case g of [] \<Rightarrow> None | e # _ \<Rightarrow> Some (k, Timestamp e))
        (map (\<lambda>k. (k, filter (\<lambda>x. key4 x = Some k) (sort_values5 action))) ks) =
      map (\<lambda>k. (k, Min (set (map Timestamp (filter (\<lambda>e. key4 e = Some k) action))))) ks"
    if "set ks \<subseteq> set (List.map_filter key4 action)" for ks
    using that by (induction ks) (simp_all add: List.map_filter_simps row)
  show ?thesis
    unfolding first_stage_def groupby_def sort_eq
    by (rule gen) simp
qed

lemma spec_earliest_key4:
  "spec_earliest action (d, p, v) s =
     (if filter (\<lambda>e. key4 e = Some (d, p, v, s)) action = [] then None
      else Some (Min (set (map Timestamp (filter (\<lambda>e. key4 e = Some (d, p, v, s)) action)))))"
proof -
  have "filter (\<lambda>e. spec_key e = Some (d, p, v) \<and> Status e = Some s) action =
        filter (\<lambda>e. key4 e = Some (d, p, v, s)) action"
    by (rule filter_cong) (simp_all add: key4_split index3_def status4_def)
  then show ?thesis
    by (simp add: spec_earliest_def Let_def)
qed

lemma index3_status4: "index3 k = (d, p, v) \<and> status4 k = s \<longleftrightarrow> k = (d, p, v, s)"
  by (cases k) (auto simp: index3_def status4_def)

lemma set_keys4:
  "k \<in> set (sort (remdups (List.map_filter key4 action))) \<longleftrightarrow>
     filter (\<lambda>e. key4 e = Some k) action \<noteq> []"
  by (auto simp: in_set_map_filter filter_empty_conv)

lemma pivot_cell_first_stage:
  "pivot_cell (first_stage action) (d, p, v) s = spec_earliest action (d, p, v) s"
proof -
  let ?K = "sort (remdups (List.map_filter key4 action))"
  let ?h = "\<lambda>k. (k, Min (set (map Timestamp (filter (\<lambda>e. key4 e = Some k) action))))"
  have flt: "filter (\<lambda>(k, t). index3 k = (d, p, v) \<and> status4 k = s) (first_stage action) =
      map ?h (filter (\<lambda>k. k = (d, p, v, s)) ?K)"
    by (simp add: first_stage_eq filter_map comp_def index3_status4)
  show ?thesis
  proof (cases "filter (\<lambda>k. k = (d, p, v, s)) ?K")
    case Nil
    then have "(d, p, v, s) \<notin> set ?K"
      by (auto simp: filter_empty_conv)
    then have "filter (\<lambda>e. key4 e = Some (d, p, v, s)) action = []"
      by (simp only: set_keys4 not_not)
    with Nil show ?thesis
      by (simp add: pivot_cell_def flt spec_earliest_key4)
  next
    case (Cons k ks)
    then have "k \<in> set (filter (\<lambda>k. k = (d, p, v, s)) ?K)"
      by simp
    then have k: "k = (d, p, v, s)" and "k \<in> set ?K"
      by auto
    with set_keys4 [of "(d, p, v, s)" action]
    have "filter (\<lambda>e. key4 e = Some (d, p, v, s)) action \<noteq> []"
      by blast
    with Cons k show ?thesis
      by (simp add: pivot_cell_def flt spec_earliest_key4)
  qed
qed

lemma key4_intro:
  assumes "spec_key e = Some i" and "Status e = Some s"
  shows "\<exists>k. key4 e = Some k \<and> index3 k = i \<and> status4 k = s"
proof -
  obtain d p v where i: "i = (d, p, v)" by (cases i)
  with assms have "key4 e = Some (d, p, v, s)"
    by (simp add: key4_split index3_def status4_def)
  with i show ?thesis
    by (intro exI [of _ "(d, p, v, s)"]) (simp add: index3_def status4_def)
qed

lemma fst_first_stage:
  "fst ` set (first_stage action) = {k. \<exists>e \<in> set action. key4 e = Some k}"
proof -
  have "map fst (first_stage action) = sort (remdups (List.map_filter key4 action))"
    by (simp add: first_stage_eq comp_def)
  then have "set (map fst (first_stage action)) = set (List.map_filter key4 action)"
    by simp
  then show ?thesis
    by (auto simp: in_set_map_filter)
qed

lemma mem_pivot_columns:
  "s \<in> set (pivot_columns (first_stage action)) \<longleftrightarrow>
     (\<exists>e \<in> set action. spec_key e \<noteq> None \<and> Status e = Some s)"
proof -
  have "s \<in> set (pivot_columns (first_stage action)) \<longleftrightarrow>
      s \<in> status4 ` (fst ` set (first_stage action))"
    by (simp add: pivot_columns_def image_image)
  also have "\<dots> \<longleftrightarrow> (\<exists>k. (\<exists>e \<in> set action. key4 e = Some k) \<and> status4 k = s)"
    unfolding fst_first_stage by blast
  also have "\<dots> \<longleftrightarrow> (\<exists>e \<in> set action. spec_key e \<noteq> None \<and> Status e = Some s)"
  proof
    assume "\<exists>k. (\<exists>e \<in> set action. key4 e = Some k) \<and> status4 k = s"
    then obtain k e where "e \<in> set action" "key4 e = Some k" "status4 k = s" by blast
    then have "e \<in> set action \<and> spec_key e \<noteq> None \<and> Status e = Some s"
      by (simp add: key4_split)
    then show "\<exists>e \<in> set action. spec_key e \<noteq> None \<and> Status e = Some s" by blast
  next
    assume "\<exists>e \<in> set action. spec_key e \<noteq> None \<and> Status e = Some s"
    then obtain e i where "e \<in> set action" "spec_key e = Some i" "Status e = Some s" by blast
    with key4_intro [of e i s]
    show "\<exists>k. (\<exists>e \<in> set action. key4 e = Some k) \<and> status4 k = s" by blast
  qed
  finally show ?thesis .
qed

lemma spec_earliest_column:
  assumes "s \<notin> set (pivot_columns (first_stage action))"
  shows "spec_earliest action k s = None"
proof -
  from assms have "\<forall>e \<in> set action. \<not> (spec_key e = Some k \<and> Status e = Some s)"
    unfolding mem_pivot_columns by (metis option.distinct(1))
  then have "filter (\<lambda>e. spec_key e = Some k \<and> Status e = Some s) action = []"
    by (simp only: filter_empty_conv)
  then show ?thesis by (simp add: spec_earliest_def)
qed

lemma pivot_index:
  "sort (remdups (map (index3 \<circ> fst) (first_stage action))) =
   sort (remdups (List.map_filter spec_key action))"
proof (rule sorted_distinct_set_unique)
  have "i \<in> set (map (index3 \<circ> fst) (first_stage action)) \<longleftrightarrow>
        i \<in> set (List.map_filter spec_key action)" for i
  proof -
    have "i \<in> set (map (index3 \<circ> fst) (first_stage action)) \<longleftrightarrow>
        i \<in> index3 ` (fst ` set (first_stage action))"
      by (simp add: image_image)
    also have "\<dots> \<longleftrightarrow> (\<exists>k. (\<exists>e \<in> set action. key4 e = Some k) \<and> index3 k = i)"
      unfolding fst_first_stage by blast
    also have "\<dots> \<longleftrightarrow> (\<exists>e \<in> set action. spec_key e = Some i)"
    proof
      assume "\<exists>k. (\<exists>e \<in> set action. key4 e = Some k) \<and> index3 k = i"
      then obtain k e where "e \<in> set action" "key4 e = Some k" "index3 k = i" by blast
      then have "e \<in> set action \<and> spec_key e = Some i"
        by (simp add: key4_split)
      then show "\<exists>e \<in> set action. spec_key e = Some i" by blast
    next
      assume "\<exists>e \<in> set action. spec_key e = Some i"
      then obtain e where e: "e \<in> set action" "spec_key e = Some i" by blast
      then obtain s where "Status e = Some s"
        by (auto simp: spec_key_def split: option.splits)
      with e key4_intro [of e i s]
      show "\<exists>k. (\<exists>e \<in> set action. key4 e = Some k) \<and> index3 k = i"
        by blast
    qed
    finally show ?thesis by (simp add: in_set_map_filter)
  qed
  then show "set (sort (remdups (map (index3 \<circ> fst) (first_stage action)))) =
      set (sort (remdups (List.map_filter spec_key action)))"
    by (simp only: set_sort set_remdups) blast
qed simp_all

lemma select_pivot_rows:
  "map (select_columns (pivot_columns (first_stage action))) (pivot_table (first_stage action)) =
   spec_intervals action"
proof -
  have row: "select_columns (pivot_columns (first_stage action))
        (i, pivot_cell (first_stage action) i) =
      (case i of (d, p, v) \<Rightarrow>
         \<lparr>w_Date = d, w_Product = p, w_Plate = v,
          Waiting = spec_earliest action i ''Waiting'',
          Start_Loading = spec_earliest action i ''Start Loading'',
          Complete_Loading = spec_earliest action i ''Complete Loading''\<rparr>)" for i
    by (cases i) (simp add: select_columns_def pivot_cell_first_stage spec_earliest_column)
  show ?thesis
    by (simp add: pivot_table_def pivot_index spec_intervals_def row)
qed

lemma collision_iff:
  "''Plate'' \<in> set (pivot_columns (first_stage action)) \<or>
   ''Product'' \<in> set (pivot_columns (first_stage action)) \<or>
   ''Date'' \<in> set (pivot_columns (first_stage action)) \<longleftrightarrow> spec_collision action"
  unfolding mem_pivot_columns spec_collision_def by blast

lemma reconstruct_no_collision:
  "\<not> spec_collision action \<Longrightarrow> reconstruct action = Inr (spec_intervals action)"
  using collision_iff [of action]
  by (simp add: reconstruct_def Let_def select_pivot_rows)

lemma spec_interval_keys:
  "map (\<lambda>w. (w_Date w, w_Product w, w_Plate w)) (spec_intervals action) =
     sort (remdups (List.map_filter spec_key action))"
  by (simp add: spec_intervals_def comp_def split_def)

text \<open>
  A status label that is the name of a key column stops the reconstruction: the label
  becomes a column of the pivot table, and \<^verbatim>\<open>reset_index\<close> cannot insert the key column.
\<close>

lemma reconstruct_status_named_Plate:
  "reconstruct
     [\<lparr>Timestamp = 1704096000000000000, Date = 19723, Product = Some ''Cement'',
       Plate = Some ''ABC-1'', Status = Some ''Plate''\<rparr>] = Inl (Cannot_insert ''Plate'')"
  by (simp add: reconstruct_def Let_def first_stage_def groupby_def sort_values5_def
      key4_def List.map_filter_simps pivot_columns_def status4_def)

text \<open>
  Claim C1, as amended.  For every sequence of normalised events in which no status
  label is one of the words Date, Product and Plate, the reconstruction yields exactly
  one interval record per distinct key (date, product, vehicle) among the events none of
  whose product, vehicle and status cells is missing, with no key twice and none of them
  dropped; in each record the field of each of the three known statuses is the least
  timestamp among the key's events with that status, and absent when there is none.
\<close>

theorem reconstruct_one_record_per_key:
  assumes "\<not> spec_collision action"
  shows "reconstruct action = Inr (spec_intervals action) \<and>
     distinct (map (\<lambda>w. (w_Date w, w_Product w, w_Plate w)) (spec_intervals action)) \<and>
     set (map (\<lambda>w. (w_Date w, w_Product w, w_Plate w)) (spec_intervals action)) =
       {k. \<exists>e \<in> set action. spec_key e = Some k} \<and>
     (\<forall>w \<in> set (spec_intervals action).
        Waiting w = spec_earliest action (w_Date w, w_Product w, w_Plate w) ''Waiting'' \<and>
        Start_Loading w =
          spec_earliest action (w_Date w, w_Product w, w_Plate w) ''Start Loading'' \<and>
        Complete_Loading w =
          spec_earliest action (w_Date w, w_Product w, w_Plate w) ''Complete Loading'')"
proof -
  have "set (sort (remdups (List.map_filter spec_key action))) =
      {k. \<exists>e \<in> set action. spec_key e = Some k}"
    by (auto simp: in_set_map_filter)
  moreover have "\<forall>w \<in> set (spec_intervals action).
        Waiting w = spec_earliest action (w_Date w, w_Product w, w_Plate w) ''Waiting'' \<and>
        Start_Loading w =
          spec_earliest action (w_Date w, w_Product w, w_Plate w) ''Start Loading'' \<and>
        Complete_Loading w =
          spec_earliest action (w_Date w, w_Product w, w_Plate w) ''Complete Loading''"
    by (auto simp: spec_intervals_def)
  ultimately show ?thesis
    using assms by (simp add: reconstruct_no_collision spec_interval_keys)
qed

theorem reconstruct_one_record_per_key_witness:
  "\<not> spec_collision example_intervals \<and>
   reconstruct example_intervals =
     Inr [\<lparr>w_Date = 19723, w_Product = ''Cement'', w_Plate = ''AB-7'',
           Waiting = None, Start_Loading = None, Complete_Loading = None\<rparr>,
          \<lparr>w_Date = 19723, w_Product = ''Cement'', w_Plate = ''ABC-1'',
           Waiting = Some 1704096000000000000, Start_Loading = Some 1704097800000000000,
           Complete_Loading = None\<rparr>]"
proof -
  have h: "\<not> spec_collision example_intervals"
    by (simp add: spec_collision_def example_intervals_def spec_key_def)
  have "spec_intervals example_intervals =
      [\<lparr>w_Date = 19723, w_Product = ''Cement'', w_Plate = ''AB-7'',
           Waiting = None, Start_Loading = None, Complete_Loading = None\<rparr>,
          \<lparr>w_Date = 19723, w_Product = ''Cement'', w_Plate = ''ABC-1'',
           Waiting = Some 1704096000000000000, Start_Loading = Some 1704097800000000000,
           Complete_Loading = None\<rparr>]"
    by (simp add: spec_intervals_def example_intervals_def spec_key_def spec_earliest_def
        List.map_filter_simps less_eq_prod_def less_prod_def less_eq_char_def less_char_def)
  with h reconstruct_one_record_per_key [OF h] show ?thesis
    by simp
qed

text \<open>
  The claim as stated, for every key present in the input, fails: the events with an
  empty product cell and with an empty status cell have keys (19723, NaN, XY-2) and
  (19723, Sand, Z-3) in the input, and neither gets an interval record.
\<close>

theorem reconstruct_drops_missing_cells:
  "reconstruct example_missing_cells =
     Inr [\<lparr>w_Date = 19723, w_Product = ''Cement'', w_Plate = ''ABC-1'',
           Waiting = Some 1704096000000000000, Start_Loading = None,
           Complete_Loading = None\<rparr>]"
proof -
  have "\<not> spec_collision example_missing_cells"
    by (simp add: spec_collision_def example_missing_cells_def spec_key_def)
  then have "reconstruct example_missing_cells = Inr (spec_intervals example_missing_cells)"
    by (rule reconstruct_no_collision)
  then show ?thesis
    by (simp add: spec_intervals_def example_missing_cells_def spec_key_def spec_earliest_def
        List.map_filter_simps)
qed

section \<open>Properties of the daily summary\<close>









end
